theory Spec2Isabelle
  imports Main
begin

section \<open>JavaScript values and containers\<close>

text \<open>
  Errors of the run time are values: the only one the store can produce is the
  \<^verbatim>\<open>TypeError\<close> of a method call on \<^verbatim>\<open>undefined\<close>.
\<close>

datatype error = TypeError

text \<open>
  A number that is a safe integer, that is, an integer between \<open>-(2^53 - 1)\<close> and
  \<open>2^53 - 1\<close>. These are the numbers whose string form is their decimal numeral.
\<close>

typedef safe_integer = "{i :: int. - 9007199254740991 \<le> i \<and> i \<le> 9007199254740991}"
  by (rule exI [of _ 0]) simp

text \<open>
  The values a property read of an object can give. The translator does two things with
  such a value: it compares it with \<^verbatim>\<open>undefined\<close> and \<^verbatim>\<open>null\<close>, and it takes
  \<^verbatim>\<open>String(value)\<close>. So a value that is neither of the two, nor a string, nor a safe
  integer (any other number, a function, an object) is given by the string that
  \<^verbatim>\<open>String\<close> returns for it. Strings are lists of code units.
\<close>

datatype js_value = JUndefined | JNull | JString string | JNumber safe_integer | JOther string

text \<open>The argument of \<^verbatim>\<open>setLocale(lang: string | undefined | null)\<close>.\<close>

datatype lang_arg = LangUndefined | LangNull | Lang string

text \<open>
  A JavaScript \<^verbatim>\<open>Map\<close> keeps its entries in insertion order with one entry per key:
  \<^verbatim>\<open>set\<close> overwrites the value of a present key where it stands and appends a new key.
\<close>

type_synonym ('k, 'v) js_map = "('k \<times> 'v) list"

definition Map_get :: "('k, 'v) js_map \<Rightarrow> 'k \<Rightarrow> 'v option" where
  "Map_get m k = map_of m k"

definition Map_has :: "('k, 'v) js_map \<Rightarrow> 'k \<Rightarrow> bool" where
  "Map_has m k = (map_of m k \<noteq> None)"

fun Map_set :: "'k \<Rightarrow> 'v \<Rightarrow> ('k, 'v) js_map \<Rightarrow> ('k, 'v) js_map" where
  "Map_set k v [] = [(k, v)]"
| "Map_set k v (p # ps) = (if fst p = k then (k, v) # ps else p # Map_set k v ps)"

text \<open>The decimal numeral of a natural number and of an integer.\<close>

fun digits :: "nat \<Rightarrow> string" where
  "digits n = (if n < 10 then [''0123456789'' ! n]
               else digits (n div 10) @ [''0123456789'' ! (n mod 10)])"

declare digits.simps [simp del]

definition decimal :: "int \<Rightarrow> string" where
  "decimal i = (if i < 0 then CHR ''-'' # digits (nat (- i)) else digits (nat i))"

text \<open>\<^verbatim>\<open>String(value)\<close>.\<close>

fun String :: "js_value \<Rightarrow> string" where
  "String JUndefined = ''undefined''"
| "String JNull = ''null''"
| "String (JString s) = s"
| "String (JNumber n) = decimal (Rep_safe_integer n)"
| "String (JOther s) = s"

text \<open>
  An object as the translator reads it. An object literal has its own properties and
  inherits from \<^verbatim>\<open>Object.prototype\<close>; an object made by \<^verbatim>\<open>Object.create(null)\<close> has
  its own properties only. \<^verbatim>\<open>Object.prototype\<close> holds eleven built-in functions, given
  here by the text V8 prints for them, and the accessor \<^verbatim>\<open>__proto__\<close>, which on an object
  literal gives \<^verbatim>\<open>Object.prototype\<close> itself, an object whose string form is
  \<^verbatim>\<open>[object Object]\<close>.
\<close>

datatype js_object =
  ObjectLiteral "(string \<times> js_value) list"
| NullPrototype "(string \<times> js_value) list"

definition native_function :: "string \<Rightarrow> js_value" where
  "native_function name = JOther (''function '' @ name @ ''() { [native code] }'')"

definition Object_prototype :: "(string \<times> js_value) list" where
  "Object_prototype =
     [(''constructor'', native_function ''Object''),
      (''__defineGetter__'', native_function ''__defineGetter__''),
      (''__defineSetter__'', native_function ''__defineSetter__''),
      (''hasOwnProperty'', native_function ''hasOwnProperty''),
      (''__lookupGetter__'', native_function ''__lookupGetter__''),
      (''__lookupSetter__'', native_function ''__lookupSetter__''),
      (''isPrototypeOf'', native_function ''isPrototypeOf''),
      (''propertyIsEnumerable'', native_function ''propertyIsEnumerable''),
      (''toString'', native_function ''toString''),
      (''valueOf'', native_function ''valueOf''),
      (''toLocaleString'', native_function ''toLocaleString''),
      (''__proto__'', JOther ''[object Object]'')]"

text \<open>
  The property read \<^verbatim>\<open>obj[key]\<close>: the object's own property when it has one, else what
  its prototype holds under the key, else \<^verbatim>\<open>undefined\<close>.
\<close>

fun get_property :: "js_object \<Rightarrow> string \<Rightarrow> js_value" where
  "get_property (ObjectLiteral own) key =
     (case map_of own key of
        Some v \<Rightarrow> v
      | None \<Rightarrow> (case map_of Object_prototype key of Some v \<Rightarrow> v | None \<Rightarrow> JUndefined))"
| "get_property (NullPrototype own) key =
     (case map_of own key of Some v \<Rightarrow> v | None \<Rightarrow> JUndefined)"

text \<open>\<^verbatim>\<open>xs.join(sep)\<close> on an array of strings.\<close>

fun join :: "string \<Rightarrow> string list \<Rightarrow> string" where
  "join sep [] = []"
| "join sep [x] = x"
| "join sep (x # y # ys) = x @ sep @ join sep (y # ys)"

section \<open>Configuration and environment\<close>

text \<open>
  \<^verbatim>\<open>PartialTranslationEntryMap\<close>: an object from translation keys to objects from
  language codes to strings, read through \<^verbatim>\<open>Object.entries\<close>, that is, as the list of
  its (key, value) pairs in property order.
\<close>

type_synonym partial_entry = "(string \<times> string) list"
type_synonym entry_map = "(string \<times> partial_entry) list"

record config =
  supportedLocales :: "string list"
  defaultLocale :: string
  initialTranslations :: "entry_map list"
  localStorageKey :: string
  devLogs :: "bool option"

text \<open>The destructuring default \<^verbatim>\<open>devLogs = true\<close>.\<close>

definition dev_logs :: "config \<Rightarrow> bool" where
  "dev_logs cfg = (case devLogs cfg of None \<Rightarrow> True | Some b \<Rightarrow> b)"

text \<open>
  What the store reads from and writes to outside itself: whether \<^verbatim>\<open>window\<close> is defined,
  the content of \<^verbatim>\<open>localStorage\<close> with the list of \<^verbatim>\<open>setItem\<close> calls made so far, and
  \<^verbatim>\<open>navigator.languages\<close> and \<^verbatim>\<open>navigator.language\<close> (\<open>None\<close> for \<^verbatim>\<open>undefined\<close>).
\<close>

record env =
  browser :: bool
  localStorage :: "string \<rightharpoonup> string"
  setItem_calls :: "(string \<times> string) list"
  navigator_languages :: "string list option"
  navigator_language :: "string option"

definition setItem :: "string \<Rightarrow> string \<Rightarrow> env \<Rightarrow> env" where
  "setItem k v e = e\<lparr>localStorage := (localStorage e)(k \<mapsto> v),
                    setItem_calls := setItem_calls e @ [(k, v)]\<rparr>"

section \<open>The locale resolver\<close>

text \<open>\<^verbatim>\<open>lang.split('-')[0]\<close>: the text before the first hyphen.\<close>

definition baseLang :: "string \<Rightarrow> string" where
  "baseLang lang = takeWhile (\<lambda>c. c \<noteq> CHR ''-'') lang"

text \<open>
  The loop over \<^verbatim>\<open>preferredLangs\<close>: \<open>Some\<close> is a \<^verbatim>\<open>return\<close> from inside the loop,
  \<open>None\<close> is the loop running to its end.
\<close>

fun match_preferred :: "string list \<Rightarrow> string list \<Rightarrow> string option" where
  "match_preferred sl [] = None"
| "match_preferred sl (lang # langs) =
     (if lang \<in> set sl then Some lang
      else if baseLang lang \<in> set sl then Some (baseLang lang)
      else match_preferred sl langs)"

text \<open>
  \<^verbatim>\<open>navigator.languages ? [...navigator.languages] : navigator.language ?
  [navigator.language] : []\<close>. An array is truthy even when empty; a string is truthy
  when it is not empty.
\<close>

definition preferredLangs :: "env \<Rightarrow> string list" where
  "preferredLangs e =
     (case navigator_languages e of
        Some langs \<Rightarrow> langs
      | None \<Rightarrow> (case navigator_language e of
                  Some lang \<Rightarrow> if lang \<noteq> [] then [lang] else []
                | None \<Rightarrow> []))"

definition detect_preferred :: "config \<Rightarrow> env \<Rightarrow> string" where
  "detect_preferred cfg e =
     (case match_preferred (supportedLocales cfg) (preferredLangs e) of
        Some lang \<Rightarrow> lang
      | None \<Rightarrow> defaultLocale cfg)"

definition getInitLocale :: "config \<Rightarrow> env \<Rightarrow> string" where
  "getInitLocale cfg e =
     (if \<not> browser e then defaultLocale cfg
      else case localStorage e (localStorageKey cfg) of
             Some storedLang \<Rightarrow>
               if storedLang \<noteq> [] \<and> storedLang \<in> set (supportedLocales cfg) then storedLang
               else detect_preferred cfg e
           | None \<Rightarrow> detect_preferred cfg e)"

text \<open>
  The resolver as the specification words it: a strict priority chain whose third link
  is the first supported candidate in the list of candidates, each preferred tag
  contributing itself and then its base subtag.
\<close>

definition persisted_choice :: "config \<Rightarrow> env \<Rightarrow> string option" where
  "persisted_choice cfg e =
     (case localStorage e (localStorageKey cfg) of
        None \<Rightarrow> None
      | Some v \<Rightarrow> if v \<noteq> [] \<and> v \<in> set (supportedLocales cfg) then Some v else None)"

definition preferred_tags :: "env \<Rightarrow> string list" where
  "preferred_tags e =
     (case navigator_languages e of
        Some tags \<Rightarrow> tags
      | None \<Rightarrow> filter (\<lambda>tag. tag \<noteq> []) (case navigator_language e of None \<Rightarrow> [] | Some tag \<Rightarrow> [tag]))"

definition candidates :: "string list \<Rightarrow> string list" where
  "candidates tags = concat (map (\<lambda>tag. [tag, takeWhile (\<lambda>c. c \<noteq> CHR ''-'') tag]) tags)"

definition resolve_spec :: "config \<Rightarrow> env \<Rightarrow> string" where
  "resolve_spec cfg e =
     (if \<not> browser e then defaultLocale cfg
      else case persisted_choice cfg e of
             Some v \<Rightarrow> v
           | None \<Rightarrow>
               (case find (\<lambda>c. c \<in> set (supportedLocales cfg)) (candidates (preferred_tags e)) of
                  Some c \<Rightarrow> c
                | None \<Rightarrow> defaultLocale cfg))"

section \<open>The translation table\<close>

type_synonym table = "(string, (string, string) js_map) js_map"

text \<open>
  \<^verbatim>\<open>if (result.has(lang)) result.get(lang)!.set(key, value)\<close>: the inner map is changed
  where it stands, so the outer entry keeps its place.
\<close>

definition set_pair :: "string \<Rightarrow> string \<times> string \<Rightarrow> table \<Rightarrow> table" where
  "set_pair key p result =
     (case Map_get result (fst p) of
        Some m \<Rightarrow> Map_set (fst p) (Map_set key (snd p) m) result
      | None \<Rightarrow> result)"

definition add_partialEntry :: "string \<times> partial_entry \<Rightarrow> table \<Rightarrow> table" where
  "add_partialEntry kp result = fold (set_pair (fst kp)) (snd kp) result"

definition add_entry :: "entry_map \<Rightarrow> table \<Rightarrow> table" where
  "add_entry entry result = fold add_partialEntry entry result"

definition empty_table :: "string list \<Rightarrow> table" where
  "empty_table sl = fold (\<lambda>lang result. Map_set lang [] result) sl []"

definition makeTranslation :: "string list \<Rightarrow> entry_map list \<Rightarrow> table" where
  "makeTranslation sl kv_pair = fold add_entry kv_pair (empty_table sl)"

text \<open>
  The builder as the specification words it. The input is flattened to the sequence of
  (key, locale, string) writes in processing order; the table has a sub-mapping exactly
  for the supported locales, and there a key holds the last write made to it.
\<close>

definition writes_of :: "entry_map list \<Rightarrow> (string \<times> string \<times> string) list" where
  "writes_of batches =
     concat (map (\<lambda>kp. map (\<lambda>p. (fst kp, fst p, snd p)) (snd kp)) (concat batches))"

fun last_write :: "(string \<times> string \<times> string) list \<Rightarrow> string \<Rightarrow> string \<Rightarrow> string option" where
  "last_write [] l k = None"
| "last_write (w # ws) l k =
     (case last_write ws l k of
        Some v \<Rightarrow> Some v
      | None \<Rightarrow> if fst w = k \<and> fst (snd w) = l then Some (snd (snd w)) else None)"

definition build_spec :: "string list \<Rightarrow> entry_map list \<Rightarrow> string \<rightharpoonup> (string \<rightharpoonup> string)" where
  "build_spec sl batches =
     (\<lambda>l. if l \<in> set sl then Some (last_write (writes_of batches) l) else None)"

text \<open>What a table holds, per locale and per key.\<close>

definition lookup :: "table \<Rightarrow> string \<rightharpoonup> (string \<rightharpoonup> string)" where
  "lookup tr = (\<lambda>l. map_option map_of (map_of tr l))"

text \<open>
  The shape every table that \<^verbatim>\<open>makeTranslation\<close> returns has: one entry per language
  code, and one entry per key in each inner map.
\<close>

definition well_keyed :: "table \<Rightarrow> bool" where
  "well_keyed tr = (distinct (map fst tr) \<and> (\<forall>lv \<in> set tr. distinct (map fst (snd lv))))"

section \<open>The translator\<close>

text \<open>
  \<^verbatim>\<open>translation.replace(/{([^{}]+)}/g, replacer)\<close>. The scan goes from left to right.
  At a position the expression matches when an opening brace is followed by a run of
  one or more characters other than braces and then a closing brace; the run is as long
  as it can be, since the character after it must be a brace. The replacer receives the
  matched text and the captured name, what it returns is put out as it is, and the scan
  goes on after the match. Where there is no match one character is copied.
\<close>

definition is_brace :: "char \<Rightarrow> bool" where
  "is_brace c = (c = CHR ''{'' \<or> c = CHR ''}'')"

function replace_placeholders :: "(string \<Rightarrow> string \<Rightarrow> string) \<Rightarrow> string \<Rightarrow> string" where
  "replace_placeholders f [] = []"
| "replace_placeholders f (c # cs) =
     (if c = CHR ''{'' \<and> takeWhile (\<lambda>x. \<not> is_brace x) cs \<noteq> []
         \<and> (case dropWhile (\<lambda>x. \<not> is_brace x) cs of [] \<Rightarrow> False | d # ds \<Rightarrow> d = CHR ''}'')
      then f (c # takeWhile (\<lambda>x. \<not> is_brace x) cs @ [CHR ''}''])
             (takeWhile (\<lambda>x. \<not> is_brace x) cs)
           @ replace_placeholders f (tl (dropWhile (\<lambda>x. \<not> is_brace x) cs))
      else c # replace_placeholders f cs)"
  by pat_completeness auto
termination
proof (relation "measure (\<lambda>p. length (snd p))")
  show "wf (measure (\<lambda>p. length (snd p)))"
    by simp
next
  fix f :: "string \<Rightarrow> string \<Rightarrow> string" and c :: char and cs :: string
  have "length (tl (dropWhile (\<lambda>x. \<not> is_brace x) cs)) \<le> length cs"
    using length_dropWhile_le [of "\<lambda>x. \<not> is_brace x" cs] by simp
  then show "((f, tl (dropWhile (\<lambda>x. \<not> is_brace x) cs)), (f, c # cs))
             \<in> measure (\<lambda>p. length (snd p))"
    by simp
next
  fix f :: "string \<Rightarrow> string \<Rightarrow> string" and c :: char and cs :: string
  show "((f, cs), (f, c # cs)) \<in> measure (\<lambda>p. length (snd p))"
    by simp
qed

declare replace_placeholders.simps [simp del]

text \<open>
  The replacer of \<^verbatim>\<open>t\<close>: with \<^verbatim>\<open>value = replacements[key]\<close> it returns
  \<^verbatim>\<open>value !== undefined && value !== null ? String(value) : match\<close>.
\<close>

definition replacer :: "js_object \<Rightarrow> string \<Rightarrow> string \<Rightarrow> string" where
  "replacer replacements match key =
     (case get_property replacements key of
        JUndefined \<Rightarrow> match
      | JNull \<Rightarrow> match
      | JString s \<Rightarrow> String (JString s)
      | JNumber n \<Rightarrow> String (JNumber n)
      | JOther s \<Rightarrow> String (JOther s))"

section \<open>The store\<close>

datatype console_call = Warn string | Log string | Group string | GroupEnd

text \<open>
  The state the closure of \<^verbatim>\<open>createI18nStore\<close> owns.
  \<^item> \<open>translations_map\<close> is the table \<^verbatim>\<open>translations\<close>. Its inner maps are created once, in
    \<^verbatim>\<open>makeTranslation\<close>, and changed where they stand ever after, so a reference to an
    inner map is the language code it is stored under.
  \<^item> \<open>locale_value\<close> is the value of the writable store \<^verbatim>\<open>locale\<close>.
  \<^item> \<open>view\<close> is the value of the writable store \<^verbatim>\<open>_t\<close>: \<open>Some l\<close> is the inner map
    stored under \<open>l\<close>, \<open>None\<close> is \<^verbatim>\<open>undefined\<close>.
  \<^item> \<open>locale_writes\<close> lists the values \<^verbatim>\<open>locale.set\<close> was called with, \<open>notified\<close> the
    values the subscriber of \<^verbatim>\<open>locale\<close> was run with, \<open>console\<close> the console calls.
\<close>

record store =
  translations_map :: table
  locale_value :: string
  view :: "string option"
  environment :: env
  locale_writes :: "string list"
  notified :: "string list"
  console :: "console_call list"

text \<open>\<^verbatim>\<open>translations.get(lang)\<close> as a reference: \<open>None\<close> is \<^verbatim>\<open>undefined\<close>.\<close>

definition translations_get :: "table \<Rightarrow> string \<Rightarrow> string option" where
  "translations_get tr lang = (if Map_has tr lang then Some lang else None)"

text \<open>The map the reference held by \<^verbatim>\<open>_t\<close> points to.\<close>

definition view_map :: "store \<Rightarrow> (string, string) js_map option" where
  "view_map st = (case view st of None \<Rightarrow> None | Some l \<Rightarrow> Map_get (translations_map st) l)"

text \<open>
  The callback of \<^verbatim>\<open>locale.subscribe\<close>: it sets \<^verbatim>\<open>_t\<close> when the table has the language,
  and in the browser it stores the language under the storage key.
\<close>

definition locale_subscriber :: "config \<Rightarrow> string \<Rightarrow> store \<Rightarrow> store" where
  "locale_subscriber cfg lang st =
     (let st1 = st\<lparr>notified := notified st @ [lang]\<rparr>;
          st2 = (if Map_has (translations_map st1) lang
                 then st1\<lparr>view := translations_get (translations_map st1) lang\<rparr> else st1)
      in if browser (environment st2)
         then st2\<lparr>environment := setItem (localStorageKey cfg) lang (environment st2)\<rparr>
         else st2)"

text \<open>
  \<^verbatim>\<open>writable\<close> comes from the library svelte/store. Its \<^verbatim>\<open>set\<close> stores the new value and
  runs the subscribers only when \<^verbatim>\<open>safe_not_equal(value, new_value)\<close>, which on two
  strings is \<^verbatim>\<open>value !== new_value\<close>; \<^verbatim>\<open>update(fn)\<close> is \<^verbatim>\<open>set(fn(value))\<close>. The store
  \<^verbatim>\<open>locale\<close> has one subscriber from construction on, the callback above.
\<close>

definition safe_not_equal :: "string \<Rightarrow> string \<Rightarrow> bool" where
  "safe_not_equal a b = (a \<noteq> b)"

definition locale_set :: "config \<Rightarrow> string \<Rightarrow> store \<Rightarrow> store" where
  "locale_set cfg new_value st =
     (let st1 = st\<lparr>locale_writes := locale_writes st @ [new_value]\<rparr>
      in if safe_not_equal (locale_value st1) new_value
         then locale_subscriber cfg new_value (st1\<lparr>locale_value := new_value\<rparr>)
         else st1)"

definition locale_update :: "config \<Rightarrow> (string \<Rightarrow> store \<Rightarrow> string \<times> store) \<Rightarrow> store \<Rightarrow> store" where
  "locale_update cfg fn st =
     (let r = fn (locale_value st) st in locale_set cfg (fst r) (snd r))"

text \<open>
  The constructor up to the first run of the subscriber, which \<^verbatim>\<open>subscribe\<close> makes at
  once with the initial language.
\<close>

definition createI18nStore :: "config \<Rightarrow> env \<Rightarrow> store" where
  "createI18nStore cfg e =
     (let trs = makeTranslation (supportedLocales cfg) (initialTranslations cfg);
          initialLanguage = getInitLocale cfg e
      in locale_subscriber cfg initialLanguage
           \<lparr>translations_map = trs, locale_value = initialLanguage,
            view = translations_get trs initialLanguage, environment = e,
            locale_writes = [], notified = [], console = []\<rparr>)"

text \<open>
  The function the derived store \<^verbatim>\<open>t\<close> holds, as the string it returns. Reading the
  key from the value of \<^verbatim>\<open>_t\<close> throws when that value is \<^verbatim>\<open>undefined\<close>.
\<close>

definition t :: "store \<Rightarrow> string \<Rightarrow> js_object option \<Rightarrow> error + string" where
  "t st key replacements =
     (case view_map st of
        None \<Rightarrow> Inl TypeError
      | Some m \<Rightarrow>
          (let translation = (case Map_get m key of None \<Rightarrow> key | Some s \<Rightarrow> s)
           in case replacements of
                None \<Rightarrow> Inr translation
              | Some r \<Rightarrow> Inr (replace_placeholders (replacer r) translation)))"

text \<open>The console calls of the same function.\<close>

definition t_console :: "config \<Rightarrow> store \<Rightarrow> string \<Rightarrow> console_call list" where
  "t_console cfg st key =
     (case view_map st of
        None \<Rightarrow> []
      | Some m \<Rightarrow>
          if Map_get m key = None \<and> dev_logs cfg
          then [Warn (''[i18n] Translation for key '' @ [CHR 0x22] @ key @ [CHR 0x22]
                      @ '' not found. Using key as fallback.'')]
          else [])"

definition setLocale :: "config \<Rightarrow> lang_arg \<Rightarrow> store \<Rightarrow> store" where
  "setLocale cfg lang st =
     (case lang of
        LangUndefined \<Rightarrow> st
      | LangNull \<Rightarrow> st
      | Lang s \<Rightarrow>
          if s = [] then
            (if dev_logs cfg
             then st\<lparr>console := console st
                    @ [Warn (''[i18n] Initialization failed: '' @ s @ '' is not a lang.'')]\<rparr>
             else st)
          else if s \<in> set (supportedLocales cfg) then locale_set cfg s st
          else if dev_logs cfg
          then st\<lparr>console := console st
                 @ [Warn (''[i18n] Initialization failed: Language '' @ [CHR 0x22] @ s @ [CHR 0x22]
                          @ '' is not in supportedLocales [''
                          @ join '', '' (supportedLocales cfg) @ ''].'')]\<rparr>
          else st)"

text \<open>
  The merge loop of \<^verbatim>\<open>extendTranslations\<close>. \<^verbatim>\<open>translations.get(lang)!\<close> may be
  \<^verbatim>\<open>undefined\<close>; then the first \<^verbatim>\<open>existingMap.set\<close> throws.
\<close>

definition merge_lang :: "string \<times> (string, string) js_map \<Rightarrow> table \<Rightarrow> error + table" where
  "merge_lang lv trs =
     (case Map_get trs (fst lv) of
        Some existingMap \<Rightarrow>
          Inr (Map_set (fst lv) (fold (\<lambda>kv m. Map_set (fst kv) (snd kv) m) (snd lv) existingMap) trs)
      | None \<Rightarrow> if snd lv = [] then Inr trs else Inl TypeError)"

fun merge_all :: "table \<Rightarrow> table \<Rightarrow> error + table" where
  "merge_all [] trs = Inr trs"
| "merge_all (lv # lvs) trs =
     (case merge_lang lv trs of Inl e \<Rightarrow> Inl e | Inr trs' \<Rightarrow> merge_all lvs trs')"

text \<open>The console calls of \<^verbatim>\<open>extendTranslations\<close> when \<^verbatim>\<open>devLogs\<close> is on.\<close>

definition extend_logs :: "table \<Rightarrow> console_call list" where
  "extend_logs newTranslationMap =
     [Group ''[i18n] Extended translations...'']
     @ map (\<lambda>lv. Log (digits (length (snd lv)) @ '' keys added/updated for lang ''
                       @ [CHR 0x27] @ fst lv @ [CHR 0x27] @ ''.''))
           (filter (\<lambda>lv. length (snd lv) > 0) newTranslationMap)
     @ (if sum_list (map (\<lambda>lv. length (snd lv)) newTranslationMap) = 0
        then [Log ''No new translations were added.''] else [])
     @ [GroupEnd]"

definition extendTranslations :: "config \<Rightarrow> entry_map list \<Rightarrow> store \<Rightarrow> error + store" where
  "extendTranslations cfg newTranslations st =
     (let newTranslationMap = makeTranslation (supportedLocales cfg) newTranslations
      in case merge_all newTranslationMap (translations_map st) of
           Inl e \<Rightarrow> Inl e
         | Inr trs \<Rightarrow>
             (let st1 = st\<lparr>translations_map := trs\<rparr>;
                  st2 = (if dev_logs cfg
                         then st1\<lparr>console := console st1 @ extend_logs newTranslationMap\<rparr>
                         else st1)
              in Inr (locale_update cfg
                        (\<lambda>lang s. (lang, s\<lparr>view := translations_get (translations_map s) lang\<rparr>))
                        st2)))"

text \<open>
  The states a store can be in: the constructed one, and any state that calls of
  \<^verbatim>\<open>setLocale\<close>, writes to \<^verbatim>\<open>locale\<close> and calls of \<^verbatim>\<open>extendTranslations\<close> lead to.
\<close>

inductive reachable :: "config \<Rightarrow> env \<Rightarrow> store \<Rightarrow> bool" for cfg :: config and e :: env where
  created: "reachable cfg e (createI18nStore cfg e)"
| after_setLocale: "reachable cfg e st \<Longrightarrow> reachable cfg e (setLocale cfg lang st)"
| after_write: "reachable cfg e st \<Longrightarrow> reachable cfg e (locale_set cfg v st)"
| after_extend: "reachable cfg e st \<Longrightarrow> extendTranslations cfg batches st = Inr st'
                 \<Longrightarrow> reachable cfg e st'"

section \<open>A configuration to run the store on\<close>

definition demo_config :: config where
  "demo_config =
     \<lparr>supportedLocales = [''en'', ''es''], defaultLocale = ''en'',
      initialTranslations =
        [[(''hello'', [(''en'', ''Hello, {name}!''), (''es'', ''Hola''), (''fr'', ''Salut'')]),
          (''empty'', [(''en'', [])])]],
      localStorageKey = ''lang'', devLogs = None\<rparr>"

definition demo_headless :: env where
  "demo_headless =
     \<lparr>browser = False, localStorage = Map.empty, setItem_calls = [],
      navigator_languages = None, navigator_language = None\<rparr>"

definition demo_browser :: env where
  "demo_browser =
     \<lparr>browser = True, localStorage = Map.empty, setItem_calls = [],
      navigator_languages = Some [''de'', ''es-MX''], navigator_language = None\<rparr>"

definition demo_replacements :: js_object where
  "demo_replacements = ObjectLiteral [(''name'', JNumber (Abs_safe_integer 0))]"

section \<open>The locale resolver follows the priority chain\<close>

lemma match_preferred_find:
  "match_preferred sl tags = find (\<lambda>c. c \<in> set sl) (candidates tags)"
  by (induction tags) (simp_all add: candidates_def baseLang_def)

lemma preferredLangs_tags: "preferredLangs e = preferred_tags e"
  by (simp add: preferredLangs_def preferred_tags_def split: option.splits)

text \<open>
  C2. The resolver computes the priority chain of the specification: the default in a
  headless context; else the persisted value when it is not empty and supported; else
  the first supported candidate among the preferred tags, each tag tried in full and
  then by its base subtag before the next tag, the single preferred language standing
  in for a missing list; else the default.
\<close>

theorem getInitLocale_priority: "getInitLocale cfg e = resolve_spec cfg e"
  by (simp add: getInitLocale_def resolve_spec_def persisted_choice_def detect_preferred_def
      match_preferred_find preferredLangs_tags split: option.splits)

section \<open>The table builder writes last-write-wins\<close>

lemma map_of_Map_set: "map_of (Map_set k v m) = (map_of m)(k \<mapsto> v)"
  by (induction m) (auto simp: fun_eq_iff)

lemma lookup_Map_set:
  "lookup (Map_set l m tr) = (lookup tr)(l \<mapsto> map_of m)"
  by (simp add: lookup_def map_of_Map_set fun_eq_iff)

lemma lookup_set_pair:
  "lookup (set_pair k p tr) l
   = (if l = fst p then map_option (\<lambda>m. m(k \<mapsto> snd p)) (lookup tr l) else lookup tr l)"
  by (auto simp add: set_pair_def Map_get_def lookup_Map_set map_of_Map_set lookup_def
      split: option.splits)

lemma last_write_append:
  "last_write (xs @ ys) l = last_write xs l ++ last_write ys l"
  by (induction xs) (auto simp add: fun_eq_iff map_add_def split: option.splits)

lemma last_write_single:
  "last_write [w] l = (if fst (snd w) = l then [fst w \<mapsto> snd (snd w)] else Map.empty)"
  by (auto simp add: fun_eq_iff)

lemma single_write_add:
  "m ++ last_write [w] l = (if l = fst (snd w) then m(fst w \<mapsto> snd (snd w)) else m)"
  by (auto simp add: fun_eq_iff map_add_def split: option.splits)

lemma lookup_fold_set_pair:
  "lookup (fold (set_pair k) pe tr) l
   = map_option (\<lambda>m. m ++ last_write (map (\<lambda>p. (k, fst p, snd p)) pe) l) (lookup tr l)"
proof (induction pe arbitrary: tr)
  case Nil
  show ?case by (simp add: option.map_ident)
next
  case (Cons p pe)
  let ?rest = "last_write (map (\<lambda>p. (k, fst p, snd p)) pe) l"
  have "lookup (fold (set_pair k) (p # pe) tr) l
        = map_option (\<lambda>m. m ++ ?rest) (lookup (set_pair k p tr) l)"
    by (simp add: Cons.IH)
  also have "\<dots> = map_option (\<lambda>m. m ++ (last_write [(k, fst p, snd p)] l ++ ?rest)) (lookup tr l)"
    by (cases "lookup tr l")
       (auto simp add: lookup_set_pair single_write_add simp del: last_write.simps)
  also have "last_write [(k, fst p, snd p)] l ++ ?rest
             = last_write (map (\<lambda>p. (k, fst p, snd p)) (p # pe)) l"
    using last_write_append [of "[(k, fst p, snd p)]" "map (\<lambda>p. (k, fst p, snd p)) pe" l]
    by simp
  finally show ?case .
qed

lemma writes_of_Cons:
  "writes_of (b # bs) = concat (map (\<lambda>kp. map (\<lambda>p. (fst kp, fst p, snd p)) (snd kp)) b) @ writes_of bs"
  by (simp add: writes_of_def)

lemma lookup_add_partialEntry:
  "lookup (add_partialEntry kp tr) l
   = map_option (\<lambda>m. m ++ last_write (map (\<lambda>p. (fst kp, fst p, snd p)) (snd kp)) l) (lookup tr l)"
  by (simp add: add_partialEntry_def lookup_fold_set_pair)

lemma lookup_add_entry:
  "lookup (add_entry entry tr) l
   = map_option (\<lambda>m. m ++ last_write (concat (map (\<lambda>kp. map (\<lambda>p. (fst kp, fst p, snd p)) (snd kp)) entry)) l)
       (lookup tr l)"
  unfolding add_entry_def
proof (induction entry arbitrary: tr)
  case Nil
  show ?case by (simp add: option.map_ident)
next
  case (Cons kp entry)
  show ?case
    by (cases "lookup tr l")
       (simp_all add: Cons.IH lookup_add_partialEntry last_write_append
          del: last_write.simps)
qed

lemma lookup_fold_add_entry:
  "lookup (fold add_entry bs tr) l
   = map_option (\<lambda>m. m ++ last_write (writes_of bs) l) (lookup tr l)"
proof (induction bs arbitrary: tr)
  case Nil
  show ?case by (simp add: writes_of_def option.map_ident)
next
  case (Cons b bs)
  show ?case
    by (cases "lookup tr l")
       (simp_all add: Cons.IH lookup_add_entry writes_of_Cons last_write_append
          del: last_write.simps)
qed

lemma lookup_fold_init:
  "lookup (fold (\<lambda>lang result. Map_set lang [] result) sl tr) l
   = (if l \<in> set sl then Some Map.empty else lookup tr l)"
  by (induction sl arbitrary: tr) (auto simp add: lookup_Map_set)

lemma lookup_empty_table:
  "lookup (empty_table sl) l = (if l \<in> set sl then Some Map.empty else None)"
  by (simp add: empty_table_def lookup_fold_init) (simp add: lookup_def)

text \<open>
  C6. The built table has one sub-mapping for each supported locale and for no other;
  the sub-mapping of a supported locale holds, for each key, the last string written
  to that key and locale in the order batches, entries and pairs are processed, and
  nothing when there was no such write. Writes to unsupported locales leave no trace.
\<close>

theorem makeTranslation_builds_spec:
  "lookup (makeTranslation sl batches) = build_spec sl batches"
  by (simp add: fun_eq_iff makeTranslation_def build_spec_def lookup_fold_add_entry
      lookup_empty_table)

section \<open>Lookup, fallback and substitution\<close>

lemma is_brace_simps [simp]: "is_brace CHR ''{''" "is_brace CHR ''}''"
  by (simp_all add: is_brace_def)

lemma takeWhile_name:
  assumes "\<forall>c \<in> set name. \<not> is_brace c"
  shows "takeWhile (\<lambda>x. \<not> is_brace x) (name @ CHR ''}'' # post) = name"
    and "dropWhile (\<lambda>x. \<not> is_brace x) (name @ CHR ''}'' # post) = CHR ''}'' # post"
  using assms by simp_all

lemma replace_token_head:
  assumes "name \<noteq> []" "\<forall>c \<in> set name. \<not> is_brace c"
  shows "replace_placeholders f (CHR ''{'' # name @ CHR ''}'' # post)
         = f (CHR ''{'' # name @ [CHR ''}'']) name @ replace_placeholders f post"
  using assms by (simp add: replace_placeholders.simps takeWhile_name)

lemma replace_token_after:
  assumes "name \<noteq> []" "\<forall>c \<in> set name. \<not> is_brace c"
  shows "replace_placeholders f (pre @ CHR ''{'' # name @ CHR ''}'' # post)
         = replace_placeholders f pre @ f (CHR ''{'' # name @ [CHR ''}'']) name
           @ replace_placeholders f post"
proof (induction f pre rule: replace_placeholders.induct)
  case (1 f)
  show ?case using assms by (simp add: replace_token_head replace_placeholders.simps)
next
  case (2 f c cs)
  let ?P = "\<lambda>x. \<not> is_brace x"
  let ?X = "CHR ''{'' # name @ CHR ''}'' # post"
  show ?case
  proof (cases "\<forall>x \<in> set cs. ?P x")
    case True
    then have tw: "takeWhile ?P (cs @ ?X) = cs" "dropWhile ?P (cs @ ?X) = ?X"
      "takeWhile ?P cs = cs" "dropWhile ?P cs = []"
      by simp_all
    have "replace_placeholders f ((c # cs) @ ?X) = c # replace_placeholders f (cs @ ?X)"
      by (simp add: replace_placeholders.simps tw)
    moreover have "replace_placeholders f (c # cs) = c # replace_placeholders f cs"
      by (simp add: replace_placeholders.simps tw)
    moreover have "replace_placeholders f (cs @ ?X) = replace_placeholders f cs
        @ f (CHR ''{'' # name @ [CHR ''}'']) name @ replace_placeholders f post"
      using "2.IH"(2) by (simp add: tw)
    ultimately show ?thesis by simp
  next
    case False
    then obtain x where x: "x \<in> set cs" "\<not> ?P x" by blast
    then have tw: "takeWhile ?P (cs @ ?X) = takeWhile ?P cs"
      "dropWhile ?P (cs @ ?X) = dropWhile ?P cs @ ?X"
      by (simp_all add: takeWhile_append1 dropWhile_append1)
    from x have ne: "dropWhile ?P cs \<noteq> []"
      by (metis dropWhile_eq_Nil_conv)
    show ?thesis
    proof (cases "c = CHR ''{'' \<and> takeWhile ?P cs \<noteq> []
         \<and> (case dropWhile ?P cs of [] \<Rightarrow> False | d # ds \<Rightarrow> d = CHR ''}'')")
      case True
      with ne have "replace_placeholders f ((c # cs) @ ?X)
         = f (c # takeWhile ?P cs @ [CHR ''}'']) (takeWhile ?P cs)
           @ replace_placeholders f (tl (dropWhile ?P cs) @ ?X)"
        by (simp add: replace_placeholders.simps tw split: list.splits)
      moreover from True have "replace_placeholders f (c # cs)
         = f (c # takeWhile ?P cs @ [CHR ''}'']) (takeWhile ?P cs)
           @ replace_placeholders f (tl (dropWhile ?P cs))"
        by (simp add: replace_placeholders.simps)
      ultimately show ?thesis using "2.IH"(1) True by simp
    next
      case False
      with ne have "replace_placeholders f ((c # cs) @ ?X) = c # replace_placeholders f (cs @ ?X)"
        by (auto simp add: replace_placeholders.simps tw split: list.splits)
      moreover from False have "replace_placeholders f (c # cs) = c # replace_placeholders f cs"
        by (subst replace_placeholders.simps) (simp only: if_False)
      ultimately show ?thesis using "2.IH"(2) False by simp
    qed
  qed
qed

lemma replace_no_brace:
  "\<forall>c \<in> set s. c \<noteq> CHR ''}'' \<Longrightarrow> replace_placeholders f s = s"
proof (induction s)
  case Nil
  show ?case by (simp add: replace_placeholders.simps)
next
  case (Cons c cs)
  have "d \<noteq> CHR ''}''" if "dropWhile (\<lambda>x. \<not> is_brace x) cs = d # ds" for d ds
  proof -
    from that have "d \<in> set cs"
      using set_dropWhileD [of d "\<lambda>x. \<not> is_brace x" cs] by simp
    with Cons.prems show ?thesis by simp
  qed
  then have "\<not> (case dropWhile (\<lambda>x. \<not> is_brace x) cs of [] \<Rightarrow> False | d # ds \<Rightarrow> d = CHR ''}'')"
    by (simp split: list.split)
  then have "replace_placeholders f (c # cs) = c # replace_placeholders f cs"
    by (subst replace_placeholders.simps) simp
  with Cons show ?case by simp
qed

lemma replace_Nil: "replace_placeholders f [] = []"
  by (simp add: replace_placeholders.simps)

text \<open>
  What the code does with a token \<open>{name}\<close>, the name not empty and free of braces,
  wherever it stands in a template: the output is the output for the text before the
  token, then the string form of what the property read gives for the name, or the
  token itself when that is \<^verbatim>\<open>undefined\<close> or \<^verbatim>\<open>null\<close>, then the output for the text
  after the token. The value is not scanned again.
\<close>

lemma substitution_by_property_read:
  assumes "name \<noteq> []" and "\<forall>c \<in> set name. c \<noteq> CHR ''{'' \<and> c \<noteq> CHR ''}''"
  shows "replace_placeholders (replacer r) (pre @ CHR ''{'' # name @ CHR ''}'' # post)
         = replace_placeholders (replacer r) pre
           @ (case get_property r name of
                JUndefined \<Rightarrow> CHR ''{'' # name @ [CHR ''}'']
              | JNull \<Rightarrow> CHR ''{'' # name @ [CHR ''}'']
              | v \<Rightarrow> String v)
           @ replace_placeholders (replacer r) post"
proof -
  from assms(2) have nb: "\<forall>c \<in> set name. \<not> is_brace c"
    by (simp add: is_brace_def)
  have "replacer r (CHR ''{'' # name @ [CHR ''}'']) name
        = (case get_property r name of
             JUndefined \<Rightarrow> CHR ''{'' # name @ [CHR ''}'']
           | JNull \<Rightarrow> CHR ''{'' # name @ [CHR ''}'']
           | v \<Rightarrow> String v)"
    by (simp add: replacer_def split: js_value.splits)
  then show ?thesis
    using replace_token_after [OF assms(1) nb, of "replacer r" pre post] by simp
qed

lemma String_zero: "String (JNumber (Abs_safe_integer 0)) = ''0''"
  by (simp add: Abs_safe_integer_inverse decimal_def digits.simps)

text \<open>
  C3. The translator does not always leave a placeholder alone when the replacements
  have no entry for its name. The replacer reads \<^verbatim>\<open>replacements[key]\<close> and tests the
  value against \<^verbatim>\<open>undefined\<close> and \<^verbatim>\<open>null\<close> only, and the read of a name the object
  does not have goes on to \<^verbatim>\<open>Object.prototype\<close>. With the empty object literal as
  replacements, the token \<open>{constructor}\<close> is replaced by the text of the function
  \<^verbatim>\<open>Object\<close>, while the token \<open>{name}\<close> is left as it is; an object without
  prototype leaves both.
\<close>

theorem t_substitutes_inherited_member:
  "t (createI18nStore demo_config demo_headless) ''{constructor}'' (Some (ObjectLiteral []))
     = Inr ''function Object() { [native code] }''
   \<and> t (createI18nStore demo_config demo_headless) ''{name}'' (Some (ObjectLiteral []))
       = Inr ''{name}''
   \<and> t (createI18nStore demo_config demo_headless) ''{constructor}'' (Some (NullPrototype []))
       = Inr ''{constructor}''"
  by code_simp

text \<open>
  C8. When the current view has no entry for the key, the translator called without
  replacements returns the key.
\<close>

theorem t_falls_back_to_key:
  assumes "view_map st = Some m" and "Map_get m key = None"
  shows "t st key None = Inr key"
  using assms by (simp add: t_def)

theorem t_falls_back_to_key_witness:
  "view_map (createI18nStore demo_config demo_headless)
     = Some [(''hello'', ''Hello, {name}!''), (''empty'', [])]
   \<and> Map_get [(''hello'', ''Hello, {name}!''), (''empty'', [])] ''bye'' = None
   \<and> t (createI18nStore demo_config demo_headless) ''bye'' None = Inr ''bye''"
proof -
  have v: "view_map (createI18nStore demo_config demo_headless)
           = Some [(''hello'', ''Hello, {name}!''), (''empty'', [])]"
    by code_simp
  have g: "Map_get [(''hello'', ''Hello, {name}!''), (''empty'', [])] ''bye'' = None"
    by (simp add: Map_get_def)
  show ?thesis
    using v g t_falls_back_to_key [OF v g] by simp
qed

text \<open>
  C9. When the current view has an entry for the key, the translator returns the
  stored string and not the key; a stored empty string is returned as the empty
  string, with or without replacements.
\<close>

theorem t_returns_stored_string:
  assumes "view_map st = Some m"
  shows "(Map_get m key = Some [] \<longrightarrow> t st key replacements = Inr [])
         \<and> (Map_get m key = Some s \<longrightarrow> t st key None = Inr s)"
  using assms by (simp add: t_def replace_Nil split: option.splits)

theorem t_returns_stored_string_witness:
  "view_map (createI18nStore demo_config demo_headless)
     = Some [(''hello'', ''Hello, {name}!''), (''empty'', [])]
   \<and> t (createI18nStore demo_config demo_headless) ''empty'' (Some demo_replacements) = Inr []
   \<and> t (createI18nStore demo_config demo_headless) ''empty'' None = Inr []"
proof -
  have v: "view_map (createI18nStore demo_config demo_headless)
           = Some [(''hello'', ''Hello, {name}!''), (''empty'', [])]"
    by code_simp
  have g: "Map_get [(''hello'', ''Hello, {name}!''), (''empty'', [])] ''empty'' = Some []"
    by (simp add: Map_get_def)
  show ?thesis
    using v g
      t_returns_stored_string [OF v, of "''empty''" "Some demo_replacements" "[]"]
    by simp
qed

section \<open>Merging into the table\<close>

lemma keys_Map_set:
  "map fst (Map_set k v m) = (if k \<in> set (map fst m) then map fst m else map fst m @ [k])"
  by (induction m) auto

lemma distinct_Map_set: "distinct (map fst m) \<Longrightarrow> distinct (map fst (Map_set k v m))"
  by (simp add: keys_Map_set)

lemma set_Map_set: "set (Map_set k v m) \<subseteq> insert (k, v) (set m)"
  by (induction m) auto

lemma well_keyed_Map_set:
  assumes "well_keyed tr" and "distinct (map fst m)"
  shows "well_keyed (Map_set l m tr)"
  using assms set_Map_set [of l m tr]
  by (auto simp add: well_keyed_def distinct_Map_set)

lemma well_keyed_set_pair: "well_keyed tr \<Longrightarrow> well_keyed (set_pair k p tr)"
proof (cases "Map_get tr (fst p)")
  case None
  assume "well_keyed tr"
  with None show ?thesis by (simp add: set_pair_def)
next
  case (Some m)
  assume wk: "well_keyed tr"
  from Some have "(fst p, m) \<in> set tr"
    by (simp add: Map_get_def map_of_SomeD)
  with wk have "distinct (map fst m)"
    by (auto simp add: well_keyed_def)
  then have "distinct (map fst (Map_set k (snd p) m))"
    by (rule distinct_Map_set)
  with wk Some show ?thesis
    by (simp add: set_pair_def well_keyed_Map_set)
qed

lemma well_keyed_fold:
  assumes "\<And>x tr. well_keyed tr \<Longrightarrow> well_keyed (f x tr)"
  shows "well_keyed tr \<Longrightarrow> well_keyed (fold f xs tr)"
  by (induction xs arbitrary: tr) (simp_all add: assms)

lemma well_keyed_makeTranslation: "well_keyed (makeTranslation sl batches)"
proof -
  have "well_keyed []"
    by (simp add: well_keyed_def)
  then have "well_keyed (empty_table sl)"
    unfolding empty_table_def
    by (rule well_keyed_fold [rotated]) (simp add: well_keyed_Map_set)
  then show ?thesis
    unfolding makeTranslation_def add_entry_def add_partialEntry_def
    by (intro well_keyed_fold well_keyed_set_pair)
qed

lemma map_of_fold_Map_set:
  "distinct (map fst vm) \<Longrightarrow>
   map_of (fold (\<lambda>kv m. Map_set (fst kv) (snd kv) m) vm em) = map_of em ++ map_of vm"
proof (induction vm arbitrary: em)
  case Nil
  show ?case by simp
next
  case (Cons kv vm)
  then have "map_of vm (fst kv) = None"
    by (simp add: map_of_eq_None_iff)
  then have "(map_of em)(fst kv \<mapsto> snd kv) ++ map_of vm = map_of em ++ map_of (kv # vm)"
    by (cases kv) (auto simp add: fun_eq_iff map_add_def split: option.splits)
  with Cons show ?case
    by (simp add: map_of_Map_set del: map_of.simps)
qed

lemma merge_lang_lookup:
  assumes "lookup trs (fst lv) \<noteq> None" and "distinct (map fst (snd lv))"
  shows "\<exists>trs'. merge_lang lv trs = Inr trs'
           \<and> (\<forall>l. lookup trs' l
                    = (if l = fst lv then map_option (\<lambda>m. m ++ map_of (snd lv)) (lookup trs l)
                       else lookup trs l))"
proof -
  from assms(1) obtain em where em: "map_of trs (fst lv) = Some em"
    by (auto simp add: lookup_def)
  then have "merge_lang lv trs
     = Inr (Map_set (fst lv) (fold (\<lambda>kv m. Map_set (fst kv) (snd kv) m) (snd lv) em) trs)"
    by (simp add: merge_lang_def Map_get_def)
  moreover have "lookup (Map_set (fst lv) (fold (\<lambda>kv m. Map_set (fst kv) (snd kv) m) (snd lv) em) trs) l
     = (if l = fst lv then map_option (\<lambda>m. m ++ map_of (snd lv)) (lookup trs l) else lookup trs l)"
    for l
    using em by (simp add: lookup_Map_set map_of_fold_Map_set [OF assms(2)]) (simp add: lookup_def)
  ultimately show ?thesis by simp
qed

lemma merge_all_lookup:
  assumes "distinct (map fst new)"
    and "\<forall>lv \<in> set new. lookup trs (fst lv) \<noteq> None \<and> distinct (map fst (snd lv))"
  shows "\<exists>trs'. merge_all new trs = Inr trs'
           \<and> (\<forall>l. lookup trs' l
                    = (case map_of new l of
                         None \<Rightarrow> lookup trs l
                       | Some vm \<Rightarrow> map_option (\<lambda>m. m ++ map_of vm) (lookup trs l)))"
  using assms
proof (induction new arbitrary: trs)
  case Nil
  show ?case by simp
next
  case (Cons lv new)
  from Cons.prems obtain trs1 where t1: "merge_lang lv trs = Inr trs1"
    and l1: "\<And>l. lookup trs1 l
                = (if l = fst lv then map_option (\<lambda>m. m ++ map_of (snd lv)) (lookup trs l)
                   else lookup trs l)"
    using merge_lang_lookup [of trs lv] by auto
  from Cons.prems have "distinct (map fst new)" by simp
  moreover from Cons.prems l1
  have "\<forall>lv' \<in> set new. lookup trs1 (fst lv') \<noteq> None \<and> distinct (map fst (snd lv'))"
    by auto
  ultimately obtain trs' where t2: "merge_all new trs1 = Inr trs'"
    and l2: "\<And>l. lookup trs' l
                = (case map_of new l of
                     None \<Rightarrow> lookup trs1 l
                   | Some vm \<Rightarrow> map_option (\<lambda>m. m ++ map_of vm) (lookup trs1 l))"
    using Cons.IH [of trs1] by auto
  from Cons.prems have fresh: "map_of new (fst lv) = None"
    by (simp add: map_of_eq_None_iff)
  have "lookup trs' l
        = (case map_of (lv # new) l of
             None \<Rightarrow> lookup trs l
           | Some vm \<Rightarrow> map_option (\<lambda>m. m ++ map_of vm) (lookup trs l))" for l
    using fresh by (cases lv) (auto simp add: l1 l2 split: option.splits)
  with t1 t2 show ?case by simp
qed

section \<open>The operations of the store\<close>

lemma lookup_makeTranslation:
  "lookup (makeTranslation sl batches) l
   = (if l \<in> set sl then Some (last_write (writes_of batches) l) else None)"
  by (simp add: makeTranslation_def lookup_fold_add_entry lookup_empty_table)

lemma writes_of_append: "writes_of (xs @ ys) = writes_of xs @ writes_of ys"
  by (simp add: writes_of_def)

lemma subscriber_fields:
  "translations_map (locale_subscriber cfg lang st) = translations_map st"
  "locale_value (locale_subscriber cfg lang st) = locale_value st"
  "locale_writes (locale_subscriber cfg lang st) = locale_writes st"
  "console (locale_subscriber cfg lang st) = console st"
  "notified (locale_subscriber cfg lang st) = notified st @ [lang]"
  "view (locale_subscriber cfg lang st)
   = (if Map_has (translations_map st) lang then Some lang else view st)"
  "environment (locale_subscriber cfg lang st)
   = (if browser (environment st) then setItem (localStorageKey cfg) lang (environment st)
      else environment st)"
  by (simp_all add: locale_subscriber_def Let_def translations_get_def)

lemma locale_set_same:
  "locale_set cfg (locale_value st) st = st\<lparr>locale_writes := locale_writes st @ [locale_value st]\<rparr>"
  by (simp add: locale_set_def safe_not_equal_def)

lemma locale_set_fields:
  "translations_map (locale_set cfg v st) = translations_map st"
  "locale_value (locale_set cfg v st) = v"
  "locale_writes (locale_set cfg v st) = locale_writes st @ [v]"
  "console (locale_set cfg v st) = console st"
  "notified (locale_set cfg v st)
   = (if v = locale_value st then notified st else notified st @ [v])"
  "view (locale_set cfg v st)
   = (if v \<noteq> locale_value st \<and> Map_has (translations_map st) v then Some v else view st)"
  "environment (locale_set cfg v st)
   = (if v \<noteq> locale_value st \<and> browser (environment st)
      then setItem (localStorageKey cfg) v (environment st) else environment st)"
  by (auto simp add: locale_set_def safe_not_equal_def Let_def subscriber_fields)

lemma setItem_fields:
  "browser (setItem k v e) = browser e"
  "localStorage (setItem k v e) k = Some v"
  "setItem_calls (setItem k v e) = setItem_calls e @ [(k, v)]"
  by (simp_all add: setItem_def)

lemma created_fields:
  "translations_map (createI18nStore cfg e)
   = makeTranslation (supportedLocales cfg) (initialTranslations cfg)"
  "locale_value (createI18nStore cfg e) = getInitLocale cfg e"
  "environment (createI18nStore cfg e)
   = (if browser e then setItem (localStorageKey cfg) (getInitLocale cfg e) e else e)"
  by (simp_all add: createI18nStore_def Let_def subscriber_fields)

lemma setLocale_supported:
  "s \<noteq> [] \<Longrightarrow> s \<in> set (supportedLocales cfg) \<Longrightarrow> setLocale cfg (Lang s) st = locale_set cfg s st"
  by (simp add: setLocale_def)

lemma setLocale_rejected:
  assumes "\<nexists>s. lang = Lang s \<and> s \<noteq> [] \<and> s \<in> set (supportedLocales cfg)"
  shows "setLocale cfg lang st = st\<lparr>console := console (setLocale cfg lang st)\<rparr>"
  using assms by (cases lang) (auto simp add: setLocale_def)

lemma extendTranslations_result:
  assumes "\<forall>l \<in> set (supportedLocales cfg). lookup (translations_map st) l \<noteq> None"
  shows "\<exists>trs'. extendTranslations cfg batches st
           = Inr (st\<lparr>translations_map := trs',
                     console := (if dev_logs cfg
                                 then console st
                                      @ extend_logs (makeTranslation (supportedLocales cfg) batches)
                                 else console st),
                     view := translations_get trs' (locale_value st),
                     locale_writes := locale_writes st @ [locale_value st]\<rparr>)
         \<and> (\<forall>l. lookup trs' l
                   = (if l \<in> set (supportedLocales cfg)
                      then map_option (\<lambda>m. m ++ last_write (writes_of batches) l)
                             (lookup (translations_map st) l)
                      else lookup (translations_map st) l))"
proof -
  let ?new = "makeTranslation (supportedLocales cfg) batches"
  have wk: "well_keyed ?new"
    by (rule well_keyed_makeTranslation)
  have keys: "fst lv \<in> set (supportedLocales cfg)" if "lv \<in> set ?new" for lv
  proof -
    from wk that have "map_of ?new (fst lv) = Some (snd lv)"
      by (simp add: well_keyed_def)
    then have "lookup ?new (fst lv) \<noteq> None"
      by (simp add: lookup_def)
    then show ?thesis
      by (simp add: lookup_makeTranslation split: if_splits)
  qed
  have "distinct (map fst ?new)"
    using wk by (simp add: well_keyed_def)
  moreover have "\<forall>lv \<in> set ?new. lookup (translations_map st) (fst lv) \<noteq> None
                   \<and> distinct (map fst (snd lv))"
    using wk keys assms by (auto simp add: well_keyed_def)
  ultimately obtain trs' where m: "merge_all ?new (translations_map st) = Inr trs'"
    and l: "\<And>l. lookup trs' l
               = (case map_of ?new l of
                    None \<Rightarrow> lookup (translations_map st) l
                  | Some vm \<Rightarrow> map_option (\<lambda>m. m ++ map_of vm) (lookup (translations_map st) l))"
    using merge_all_lookup [of ?new "translations_map st"] by auto
  have l': "lookup trs' l
        = (if l \<in> set (supportedLocales cfg)
           then map_option (\<lambda>m. m ++ last_write (writes_of batches) l)
                  (lookup (translations_map st) l)
           else lookup (translations_map st) l)" for l
  proof (cases "l \<in> set (supportedLocales cfg)")
    case True
    then obtain vm where "map_of ?new l = Some vm" "map_of vm = last_write (writes_of batches) l"
      using lookup_makeTranslation [of "supportedLocales cfg" batches l]
      by (auto simp add: lookup_def)
    with True show ?thesis by (simp add: l)
  next
    case False
    then have "map_of ?new l = None"
      using lookup_makeTranslation [of "supportedLocales cfg" batches l]
      by (simp add: lookup_def)
    with False show ?thesis by (simp add: l)
  qed
  have "extendTranslations cfg batches st
        = Inr (st\<lparr>translations_map := trs',
                  console := (if dev_logs cfg then console st @ extend_logs ?new else console st),
                  view := translations_get trs' (locale_value st),
                  locale_writes := locale_writes st @ [locale_value st]\<rparr>)"
    by (simp add: extendTranslations_def m locale_update_def locale_set_def safe_not_equal_def
        Let_def)
  with l' show ?thesis by blast
qed

lemma reachable_invariant:
  assumes "reachable cfg e st"
  shows "(\<forall>l \<in> set (supportedLocales cfg). lookup (translations_map st) l \<noteq> None)
         \<and> (browser (environment st)
              \<longrightarrow> localStorage (environment st) (localStorageKey cfg) = Some (locale_value st))"
  using assms
proof (induction rule: reachable.induct)
  case created
  show ?case
    by (simp add: created_fields lookup_makeTranslation setItem_fields)
next
  case (after_setLocale st lang)
  show ?case
  proof (cases "\<exists>s. lang = Lang s \<and> s \<noteq> [] \<and> s \<in> set (supportedLocales cfg)")
    case True
    then obtain s where "setLocale cfg lang st = locale_set cfg s st"
      using setLocale_supported [of _ cfg st] by auto
    with after_setLocale.IH show ?thesis
      by (simp add: locale_set_fields setItem_fields)
  next
    case False
    then have "setLocale cfg lang st = st\<lparr>console := console (setLocale cfg lang st)\<rparr>"
      by (rule setLocale_rejected)
    then have "translations_map (setLocale cfg lang st) = translations_map st"
      "environment (setLocale cfg lang st) = environment st"
      "locale_value (setLocale cfg lang st) = locale_value st"
      by (metis store.select_convs store.surjective store.update_convs)+
    with after_setLocale.IH show ?thesis by simp
  qed
next
  case (after_write st v)
  then show ?case
    by (simp add: locale_set_fields setItem_fields)
next
  case (after_extend st batches st')
  from after_extend.IH obtain trs' where
    "extendTranslations cfg batches st
       = Inr (st\<lparr>translations_map := trs',
                 console := (if dev_logs cfg
                             then console st
                                  @ extend_logs (makeTranslation (supportedLocales cfg) batches)
                             else console st),
                 view := translations_get trs' (locale_value st),
                 locale_writes := locale_writes st @ [locale_value st]\<rparr>)"
    and l: "\<And>l. lookup trs' l
              = (if l \<in> set (supportedLocales cfg)
                 then map_option (\<lambda>m. m ++ last_write (writes_of batches) l)
                        (lookup (translations_map st) l)
                 else lookup (translations_map st) l)"
    using extendTranslations_result [of cfg st batches] by auto
  with after_extend.hyps(2) have st': "translations_map st' = trs'"
    "environment st' = environment st" "locale_value st' = locale_value st"
    by auto
  with after_extend.IH show ?case
    by (simp add: l)
qed

text \<open>
  C7. Extending a store whose table holds what building from \<open>B1\<close> gives succeeds and
  leaves a table that holds, per locale and per key, what building from \<open>B1\<close> followed
  by \<open>B2\<close> gives; a key and supported locale written in \<open>B2\<close> end with the last value
  \<open>B2\<close> wrote.
\<close>

theorem extendTranslations_is_rebuild:
  assumes "lookup (translations_map st) = lookup (makeTranslation (supportedLocales cfg) B1)"
  shows "\<exists>st'. extendTranslations cfg B2 st = Inr st'
           \<and> lookup (translations_map st')
               = lookup (makeTranslation (supportedLocales cfg) (B1 @ B2))
           \<and> (\<forall>l k v. l \<in> set (supportedLocales cfg) \<and> last_write (writes_of B2) l k = Some v
                 \<longrightarrow> (\<exists>m. lookup (translations_map st') l = Some m \<and> m k = Some v))"
proof -
  from assms have has: "\<forall>l \<in> set (supportedLocales cfg). lookup (translations_map st) l \<noteq> None"
    by (simp add: lookup_makeTranslation)
  then obtain trs' where
    ext: "extendTranslations cfg B2 st
       = Inr (st\<lparr>translations_map := trs',
                 console := (if dev_logs cfg
                             then console st
                                  @ extend_logs (makeTranslation (supportedLocales cfg) B2)
                             else console st),
                 view := translations_get trs' (locale_value st),
                 locale_writes := locale_writes st @ [locale_value st]\<rparr>)"
    and l: "\<And>l. lookup trs' l
              = (if l \<in> set (supportedLocales cfg)
                 then map_option (\<lambda>m. m ++ last_write (writes_of B2) l)
                        (lookup (translations_map st) l)
                 else lookup (translations_map st) l)"
    using extendTranslations_result [of cfg st B2] by auto
  have eq: "lookup trs' = lookup (makeTranslation (supportedLocales cfg) (B1 @ B2))"
    by (simp add: fun_eq_iff l assms lookup_makeTranslation writes_of_append last_write_append)
  have "\<exists>m. lookup trs' l = Some m \<and> m k = Some v"
    if "l \<in> set (supportedLocales cfg)" "last_write (writes_of B2) l k = Some v" for l k v
    using that by (simp add: l assms lookup_makeTranslation map_add_def)
  with ext eq show ?thesis by auto
qed

theorem extendTranslations_is_rebuild_witness:
  "\<exists>st'. extendTranslations demo_config [[(''hello'', [(''en'', ''Hi'')])]]
            (createI18nStore demo_config demo_headless) = Inr st'
         \<and> lookup (translations_map st')
             = lookup (makeTranslation (supportedLocales demo_config)
                         (initialTranslations demo_config @ [[(''hello'', [(''en'', ''Hi'')])]]))"
proof -
  have "lookup (translations_map (createI18nStore demo_config demo_headless))
        = lookup (makeTranslation (supportedLocales demo_config) (initialTranslations demo_config))"
    by (simp add: created_fields)
  from extendTranslations_is_rebuild [OF this, of "[[(''hello'', [(''en'', ''Hi'')])]]"]
  show ?thesis by blast
qed

text \<open>
  C4. In a reachable store, writing to \<^verbatim>\<open>locale\<close> a string the table has no sub-mapping
  for makes that string the active locale and, in the browser, stores it under the
  storage key; the view and the table stay as they were, so the translator returns for
  every key and every replacements what it returned before.
\<close>

theorem unsupported_direct_write_keeps_view:
  assumes "reachable cfg e st" and "\<not> Map_has (translations_map st) s"
  shows "locale_value (locale_set cfg s st) = s
         \<and> view (locale_set cfg s st) = view st
         \<and> translations_map (locale_set cfg s st) = translations_map st
         \<and> (\<forall>key replacements. t (locale_set cfg s st) key replacements = t st key replacements)
         \<and> (browser (environment st)
              \<longrightarrow> localStorage (environment (locale_set cfg s st)) (localStorageKey cfg) = Some s)"
proof -
  have v: "view (locale_set cfg s st) = view st"
    "translations_map (locale_set cfg s st) = translations_map st"
    using assms(2) by (simp_all add: locale_set_fields)
  then have "view_map (locale_set cfg s st) = view_map st"
    by (simp add: view_map_def split: option.splits)
  then have "t (locale_set cfg s st) key replacements = t st key replacements"
    for key replacements
    by (simp add: t_def)
  moreover have "browser (environment st)
      \<longrightarrow> localStorage (environment (locale_set cfg s st)) (localStorageKey cfg) = Some s"
    using reachable_invariant [OF assms(1)]
    by (simp add: locale_set_fields setItem_fields)
  ultimately show ?thesis
    using v by (simp add: locale_set_fields)
qed

theorem unsupported_direct_write_keeps_view_witness:
  "locale_value (locale_set demo_config ''xx'' (createI18nStore demo_config demo_browser)) = ''xx''
   \<and> view (locale_set demo_config ''xx'' (createI18nStore demo_config demo_browser)) = Some ''es''
   \<and> t (locale_set demo_config ''xx'' (createI18nStore demo_config demo_browser)) ''hello'' None
       = Inr ''Hola''
   \<and> localStorage (environment (locale_set demo_config ''xx''
         (createI18nStore demo_config demo_browser))) ''lang'' = Some ''xx''"
proof -
  have r: "reachable demo_config demo_browser (createI18nStore demo_config demo_browser)"
    by (rule reachable.created)
  have n: "\<not> Map_has (translations_map (createI18nStore demo_config demo_browser)) ''xx''"
    by code_simp
  have b: "browser (environment (createI18nStore demo_config demo_browser))"
    by code_simp
  have k: "localStorageKey demo_config = ''lang''"
    by (simp add: demo_config_def)
  have v: "view (createI18nStore demo_config demo_browser) = Some ''es''"
    by code_simp
  have h: "t (createI18nStore demo_config demo_browser) ''hello'' None = Inr ''Hola''"
    by code_simp
  show ?thesis
    using unsupported_direct_write_keeps_view [OF r n] b k v h by simp
qed

text \<open>
  C5. \<^verbatim>\<open>setLocale\<close> writes to \<^verbatim>\<open>locale\<close> exactly when its argument is a string that
  is not empty and is a supported locale. Then it is the write of that string: the
  cell holds the string afterwards, the string is the one write made, and the view
  follows as it does on a direct write. Otherwise nothing but the console changes, so
  the active locale stays; the empty string gets a warning of its own when diagnostics
  are on, \<^verbatim>\<open>undefined\<close> and \<^verbatim>\<open>null\<close> change nothing at all.
\<close>

theorem setLocale_validates:
  "(locale_writes (setLocale cfg lang st) \<noteq> locale_writes st
      \<longleftrightarrow> (\<exists>s. lang = Lang s \<and> s \<noteq> [] \<and> s \<in> set (supportedLocales cfg)))
   \<and> (\<forall>s. lang = Lang s \<and> s \<noteq> [] \<and> s \<in> set (supportedLocales cfg)
         \<longrightarrow> setLocale cfg lang st = locale_set cfg s st
             \<and> locale_value (setLocale cfg lang st) = s
             \<and> locale_writes (setLocale cfg lang st) = locale_writes st @ [s]
             \<and> notified (setLocale cfg lang st)
                 = (if s = locale_value st then notified st else notified st @ [s])
             \<and> view (setLocale cfg lang st)
                 = (if s \<noteq> locale_value st \<and> Map_has (translations_map st) s
                    then Some s else view st))
   \<and> ((\<nexists>s. lang = Lang s \<and> s \<noteq> [] \<and> s \<in> set (supportedLocales cfg))
         \<longrightarrow> setLocale cfg lang st = st\<lparr>console := console (setLocale cfg lang st)\<rparr>
             \<and> locale_value (setLocale cfg lang st) = locale_value st)
   \<and> (lang = Lang [] \<and> dev_logs cfg
         \<longrightarrow> console (setLocale cfg lang st)
             = console st @ [Warn ''[i18n] Initialization failed:  is not a lang.''])
   \<and> (lang = LangUndefined \<or> lang = LangNull \<longrightarrow> setLocale cfg lang st = st)"
  by (cases lang) (auto simp add: setLocale_def locale_set_fields)

theorem setLocale_validates_witness:
  "setLocale demo_config (Lang ''es'') (createI18nStore demo_config demo_headless)
     = locale_set demo_config ''es'' (createI18nStore demo_config demo_headless)
   \<and> locale_value (setLocale demo_config (Lang ''es'') (createI18nStore demo_config demo_headless))
       = ''es''
   \<and> locale_value (setLocale demo_config (Lang ''fr'') (createI18nStore demo_config demo_headless))
       = locale_value (createI18nStore demo_config demo_headless)
   \<and> console (setLocale demo_config (Lang []) (createI18nStore demo_config demo_headless))
       = console (createI18nStore demo_config demo_headless)
         @ [Warn ''[i18n] Initialization failed:  is not a lang.'']
   \<and> setLocale demo_config LangNull (createI18nStore demo_config demo_headless)
       = createI18nStore demo_config demo_headless"
proof -
  have s: "supportedLocales demo_config = [''en'', ''es'']" "dev_logs demo_config"
    by (simp_all add: demo_config_def dev_logs_def)
  have es: "Lang ''es'' = Lang ''es'' \<and> ''es'' \<noteq> [] \<and> ''es'' \<in> set (supportedLocales demo_config)"
    by (simp add: s)
  have fr: "\<nexists>s. Lang ''fr'' = Lang s \<and> s \<noteq> [] \<and> s \<in> set (supportedLocales demo_config)"
    by (simp add: s)
  have "setLocale demo_config (Lang ''es'') (createI18nStore demo_config demo_headless)
          = locale_set demo_config ''es'' (createI18nStore demo_config demo_headless)
        \<and> locale_value (setLocale demo_config (Lang ''es'')
              (createI18nStore demo_config demo_headless)) = ''es''"
    using setLocale_validates [of demo_config "Lang ''es''" "createI18nStore demo_config demo_headless"]
      es by blast
  moreover have "locale_value (setLocale demo_config (Lang ''fr'')
                   (createI18nStore demo_config demo_headless))
                 = locale_value (createI18nStore demo_config demo_headless)"
    using setLocale_validates [of demo_config "Lang ''fr''" "createI18nStore demo_config demo_headless"]
      fr by blast
  moreover have "console (setLocale demo_config (Lang []) (createI18nStore demo_config demo_headless))
                 = console (createI18nStore demo_config demo_headless)
                   @ [Warn ''[i18n] Initialization failed:  is not a lang.'']"
    using setLocale_validates [of demo_config "Lang []" "createI18nStore demo_config demo_headless"]
      s(2) by blast
  moreover have "setLocale demo_config LangNull (createI18nStore demo_config demo_headless)
                 = createI18nStore demo_config demo_headless"
    using setLocale_validates [of demo_config LangNull "createI18nStore demo_config demo_headless"]
    by blast
  ultimately show ?thesis by blast
qed

text \<open>
  C10, as the claim states it, fails: in the browser, \<^verbatim>\<open>extendTranslations([])\<close> on the
  constructed store writes the unchanged locale to \<^verbatim>\<open>locale\<close>, yet the list of
  \<^verbatim>\<open>setItem\<close> calls and the list of subscriber runs are what they were before the call,
  the one entry each that construction made.
\<close>

theorem extendTranslations_no_repersist_counterexample:
  "(case extendTranslations demo_config [] (createI18nStore demo_config demo_browser) of
      Inl e \<Rightarrow> False
    | Inr st' \<Rightarrow>
        locale_writes st' = [''es'']
        \<and> setItem_calls (environment st') = [(''lang'', ''es'')]
        \<and> setItem_calls (environment (createI18nStore demo_config demo_browser))
            = [(''lang'', ''es'')]
        \<and> notified st' = [''es'']
        \<and> notified (createI18nStore demo_config demo_browser) = [''es''])"
  by code_simp

text \<open>
  C10, amended. In the browser, every call of \<^verbatim>\<open>extendTranslations\<close> on a reachable
  store, one with an empty batch list included, writes the unchanged current locale to
  \<^verbatim>\<open>locale\<close>; the write does not store the value again and does not run the subscriber
  again, since the locale did not change.
\<close>

theorem extendTranslations_writes_unchanged_locale:
  assumes "reachable cfg e st" and "browser (environment st)"
  shows "\<exists>st'. extendTranslations cfg batches st = Inr st'
           \<and> locale_writes st' = locale_writes st @ [locale_value st]
           \<and> locale_value st' = locale_value st
           \<and> notified st' = notified st
           \<and> setItem_calls (environment st') = setItem_calls (environment st)
           \<and> localStorage (environment st') = localStorage (environment st)"
proof -
  from reachable_invariant [OF assms(1)]
  have "\<forall>l \<in> set (supportedLocales cfg). lookup (translations_map st) l \<noteq> None"
    by simp
  then obtain trs' where
    "extendTranslations cfg batches st
       = Inr (st\<lparr>translations_map := trs',
                 console := (if dev_logs cfg
                             then console st
                                  @ extend_logs (makeTranslation (supportedLocales cfg) batches)
                             else console st),
                 view := translations_get trs' (locale_value st),
                 locale_writes := locale_writes st @ [locale_value st]\<rparr>)"
    using extendTranslations_result [of cfg st batches] by auto
  then show ?thesis by simp
qed

theorem extendTranslations_writes_unchanged_locale_witness:
  "\<exists>st'. extendTranslations demo_config [] (createI18nStore demo_config demo_browser) = Inr st'
         \<and> locale_writes st'
             = locale_writes (createI18nStore demo_config demo_browser)
               @ [locale_value (createI18nStore demo_config demo_browser)]
         \<and> notified st' = notified (createI18nStore demo_config demo_browser)
         \<and> setItem_calls (environment st')
             = setItem_calls (environment (createI18nStore demo_config demo_browser))"
proof -
  have r: "reachable demo_config demo_browser (createI18nStore demo_config demo_browser)"
    by (rule reachable.created)
  have b: "browser (environment (createI18nStore demo_config demo_browser))"
    by code_simp
  from extendTranslations_writes_unchanged_locale [OF r b, of "[]"]
  show ?thesis by blast
qed

text \<open>
  C1. The translator can throw. On a store whose locale was written directly with a
  code the table does not have, the subscriber leaves \<^verbatim>\<open>_t\<close> alone, but a following
  \<^verbatim>\<open>extendTranslations\<close> sets \<^verbatim>\<open>_t\<close> to \<^verbatim>\<open>translations.get(lang)\<close> without the test the
  subscriber makes, that is, to \<^verbatim>\<open>undefined\<close>; the next call of the translator reads a
  key from \<^verbatim>\<open>undefined\<close>.
\<close>

theorem t_throws_after_unsupported_write_and_extend:
  "(case extendTranslations demo_config []
           (locale_set demo_config ''xx'' (createI18nStore demo_config demo_headless)) of
      Inl e \<Rightarrow> Inr ''extendTranslations threw''
    | Inr st \<Rightarrow> t st ''hello'' None)
   = Inl TypeError"
  by code_simp

text \<open>
  The translator has no other way to fail: it returns a string whenever \<^verbatim>\<open>_t\<close> holds a
  map.
\<close>

lemma t_returns_when_view_defined:
  "view_map st = Some m \<Longrightarrow> \<exists>s. t st key replacements = Inr s"
  by (simp add: t_def Let_def split: option.splits)

end
